theory Spec2Isabelle
  imports Main "HOL-Library.Sublist"
begin

section \<open>Python strings\<close>

text \<open>
  A Python \<open>str\<close> is modelled as a \<open>string\<close>; one \<open>char\<close> stands for one code point
  below 256. On these code points the case folding of \<open>re.IGNORECASE\<close> is the ASCII one.
\<close>

definition newline :: char where
  "newline = CHR 0x0A"

text \<open>\<open>pat in s\<close> on strings: \<open>pat\<close> occurs in \<open>s\<close> as a contiguous substring.\<close>

fun str_in :: "string \<Rightarrow> string \<Rightarrow> bool" where
  "str_in pat [] = (pat = [])"
| "str_in pat (c # cs) = (prefix pat (c # cs) \<or> str_in pat cs)"

text \<open>\<open>sep.join(xs)\<close>.\<close>

fun join :: "string \<Rightarrow> string list \<Rightarrow> string" where
  "join sep [] = []"
| "join sep [x] = x"
| "join sep (x # y # ys) = x @ sep @ join sep (y # ys)"

section \<open>Exceptions (agent/exceptions.py)\<close>

text \<open>
  The classes of agent/exceptions.py, and \<open>Builtin n\<close> for any other subclass of
  Python's \<open>Exception\<close>, by its name. An exception value carries its class, the text
  \<open>str(e)\<close> and the exception that was being handled when it was raised
  (\<open>__context__\<close>). Values of this type are instances of \<open>Exception\<close>, the class both
  \<open>except\<close> clauses of the source catch.
\<close>

datatype exn_class =
    WeatherAgentError | ConfigurationError | APIError | WeatherAPIError
  | LLMAPIError | ToolExecutionError | ToolNotFoundError | Builtin string

datatype exn = Exn (class_of: exn_class) (str_of: string) (context_of: "exn option")

section \<open>Tools (agent/tools/base.py)\<close>

text \<open>
  A tool returns a \<open>Dict[str, Any]\<close>: an association list in insertion order whose
  values are strings or any other Python object (\<open>Other\<close>). A tool's \<open>execute\<close> may
  raise, and it may read and change the world outside the agent (type \<open>'w\<close>).
\<close>

datatype 'x pyvalue = Str string | Other 'x

type_synonym 'x pydict = "(string \<times> 'x pyvalue) list"

record ('w, 'x) tool =
  name :: string
  description :: string
  required_args :: bool
  execute :: "string \<Rightarrow> 'w \<Rightarrow> (exn + 'x pydict) \<times> 'w"

text \<open>
  \<open>Tool.safe_execute\<close>: the \<open>try\<close> returns what \<open>execute\<close> returns; the \<open>except
  Exception\<close> branch builds the message from the tool's name and the arguments and
  returns it under the key \<open>error\<close>. The calls of the logger are not modelled.
\<close>

definition safe_execute :: "('w, 'x) tool \<Rightarrow> string \<Rightarrow> 'w \<Rightarrow> (exn + 'x pydict) \<times> 'w" where
  "safe_execute t args w =
     (case execute t args w of
        (Inr result, w') \<Rightarrow> (Inr result, w')
      | (Inl e, w') \<Rightarrow>
          (let err_message = ''Error executing the tool '' @ name t @ '' with args '' @ args
           in (Inr [(''error'', Str err_message)], w')))"

section \<open>The agent (agent/react_agent.py)\<close>

record message =
  role :: string
  content :: string

text \<open>
  The fields of \<open>Agent\<close> that \<open>reset\<close>, \<open>_call_llm\<close> and \<open>run_loop\<close> read or write.
  \<open>tools\<close> is the dict of tools in insertion order. \<open>groq_client\<close> stands for
  \<open>self.groq_client.chat.completions.create(...)\<close> followed by
  \<open>.choices[0].message.content\<close>, with the model name and the temperature fixed: given
  the conversation it returns the reply text or raises, and it may change the world.
\<close>

record ('w, 'x) agent =
  tools :: "(string \<times> ('w, 'x) tool) list"
  max_iterations :: int
  messages :: "message list"
  system_prompt :: string
  groq_client :: "message list \<Rightarrow> 'w \<Rightarrow> (exn + string) \<times> 'w"

definition reset :: "('w, 'x) agent \<Rightarrow> ('w, 'x) agent" where
  "reset a = a\<lparr>messages := [\<lparr>role = ''system'', content = system_prompt a\<rparr>]\<rparr>"

text \<open>
  \<open>Agent._call_llm\<close>: a failure of the client is caught and an \<open>LLMAPIError\<close> is raised
  from inside the handler, so the failure is its context.
\<close>

definition call_llm :: "('w, 'x) agent \<Rightarrow> 'w \<Rightarrow> (exn + string) \<times> 'w" where
  "call_llm a w =
     (case groq_client a (messages a) w of
        (Inr response, w') \<Rightarrow> (Inr response, w')
      | (Inl e, w') \<Rightarrow>
          (let error_msg = ''Error calling Groq API: '' @ str_of e
           in (Inl (Exn LLMAPIError error_msg (Some e)), w')))"

subsection \<open>The action parser\<close>

text \<open>
  \<open>re.search(r"Action: ([a-z_]+): (.+?)(?:\n|$)", response, re.IGNORECASE)\<close>.
  At one start position the pattern matches when the text reads \<open>Action: \<close> in any
  letter case, then a non-empty run of letters and underscores, then \<open>: \<close>, then at
  least one character other than a newline. The greedy first group is the whole run of
  letters and underscores (a shorter run is followed by a letter, not by the colon); the
  lazy second group stops at the first newline or at the end of the text, and \<open>.\<close> does
  not match a newline, so it is the whole run of characters up to there.
  \<open>re.search\<close> takes the leftmost start position that matches.
\<close>

definition ascii_lower :: "char \<Rightarrow> char" where
  "ascii_lower c =
     (case map_of (zip ''ABCDEFGHIJKLMNOPQRSTUVWXYZ'' ''abcdefghijklmnopqrstuvwxyz'') c of
        Some d \<Rightarrow> d
      | None \<Rightarrow> c)"

definition tool_name_char :: "char \<Rightarrow> bool" where
  "tool_name_char c = (ascii_lower c \<in> set ''abcdefghijklmnopqrstuvwxyz_'')"

fun match_literal :: "string \<Rightarrow> string \<Rightarrow> string option" where
  "match_literal [] s = Some s"
| "match_literal (p # ps) [] = None"
| "match_literal (p # ps) (c # cs) =
     (if ascii_lower p = ascii_lower c then match_literal ps cs else None)"

definition match_action :: "string \<Rightarrow> (string \<times> string) option" where
  "match_action s =
     (case match_literal ''Action: '' s of
        None \<Rightarrow> None
      | Some r1 \<Rightarrow>
          (let tool = takeWhile tool_name_char r1 in
           if tool = [] then None
           else (case match_literal '': '' (dropWhile tool_name_char r1) of
                   None \<Rightarrow> None
                 | Some r2 \<Rightarrow>
                     (let args = takeWhile (\<lambda>c. c \<noteq> newline) r2 in
                      if args = [] then None else Some (tool, args)))))"

fun parse_action :: "string \<Rightarrow> (string \<times> string) option" where
  "parse_action [] = None"
| "parse_action (c # cs) =
     (case match_action (c # cs) of
        Some action \<Rightarrow> Some action
      | None \<Rightarrow> parse_action cs)"

subsection \<open>The loop\<close>

text \<open>
  What a run does outside the agent is recorded, in order, in a trace: each call of the
  model invocation boundary (with the conversation sent), each call of a tool's
  \<open>safe_execute\<close> (registry key and arguments) and each call of the callback.
\<close>

datatype event =
    is_ModelCall: ModelCall "message list"
  | is_ToolCall: ToolCall string string
  | is_Callback: Callback string

text \<open>
  The state of one \<open>run_loop\<close> invocation: the agent, the world, the local variables
  \<open>iteration\<close> and \<open>full_response\<close>, and the trace.
\<close>

record ('w, 'x) run =
  self :: "('w, 'x) agent"
  world :: 'w
  iteration :: int
  full_response :: "string list"
  trace :: "event list"

text \<open>\<open>self.messages.append({"role": r, "content": c})\<close>.\<close>

definition append_message :: "string \<Rightarrow> string \<Rightarrow> ('w, 'x) run \<Rightarrow> ('w, 'x) run" where
  "append_message r c s =
     s\<lparr>self := (self s)\<lparr>messages := messages (self s) @ [\<lparr>role = r, content = c\<rparr>]\<rparr>\<rparr>"

text \<open>
  \<open>if callback: callback(text)\<close>. The callback returns nothing (its type is
  \<open>Callable[[str], None]\<close>); it may change the world.
\<close>

definition notify :: "(string \<Rightarrow> 'w \<Rightarrow> 'w) option \<Rightarrow> string \<Rightarrow> ('w, 'x) run \<Rightarrow> ('w, 'x) run" where
  "notify callback text s =
     (case callback of
        None \<Rightarrow> s
      | Some f \<Rightarrow> s\<lparr>world := f text (world s), trace := trace s @ [Callback text]\<rparr>)"

text \<open>
  The fixed texts of \<open>run_loop\<close>. \<open>CHR 0x27\<close> is the single quote.
\<close>

definition tool_error_observation :: "string \<Rightarrow> exn \<Rightarrow> string" where
  "tool_error_observation tool_name e =
     ''Observation: Error executing tool '' @ [CHR 0x27] @ tool_name @ [CHR 0x27] @ '': '' @ str_of e"

definition tool_not_found_observation :: "string \<Rightarrow> string \<Rightarrow> string" where
  "tool_not_found_observation tool_name available_tools =
     ''Observation: Tool '' @ [CHR 0x27] @ tool_name @ [CHR 0x27]
       @ '' not found. Available tools: '' @ available_tools"

definition could_not_parse_observation :: string where
  "could_not_parse_observation =
     ''Observation: Could not parse action. Please use the format ''
       @ [CHR 0x27] @ ''Action: tool_name: arguments'' @ [CHR 0x27]"

definition expected_format_observation :: string where
  "expected_format_observation =
     ''Observation: Expected '' @ [CHR 0x27] @ ''Action: tool_name: arguments'' @ [CHR 0x27]
       @ '' followed by '' @ [CHR 0x27] @ ''PAUSE'' @ [CHR 0x27] @ ''. Please follow the format.''"

definition exceeded_notice :: string where
  "exceeded_notice = [newline] @ ''Exceeded maximum iterations without reaching an answer.''"

text \<open>
  The \<open>try\<close> block of the dispatch: \<open>safe_execute\<close>, then \<open>json.dumps(result,
  indent=2)\<close>, which is a parameter (\<open>dumps\<close>) and raises on a value it cannot
  serialise. The \<open>except Exception\<close> branch turns either failure into an observation.
\<close>

definition dispatch ::
  "('x pydict \<Rightarrow> exn + string) \<Rightarrow> string \<Rightarrow> ('w, 'x) tool \<Rightarrow> string \<Rightarrow> ('w, 'x) run
     \<Rightarrow> string \<times> ('w, 'x) run" where
  "dispatch dumps tool_name t args s =
     (case safe_execute t args (world s) of
        (outcome, w') \<Rightarrow>
          (let s' = s\<lparr>world := w', trace := trace s @ [ToolCall tool_name args]\<rparr> in
           case outcome of
             Inl e \<Rightarrow> (tool_error_observation tool_name e, s')
           | Inr result \<Rightarrow>
               (case dumps result of
                  Inl e \<Rightarrow> (tool_error_observation tool_name e, s')
                | Inr text \<Rightarrow> (''Observation: '' @ text, s'))))"

text \<open>
  One pass through the body of the \<open>while\<close>. The result is \<open>Some\<close> when the body leaves
  the loop (\<open>Inr\<close> for the \<open>return\<close>, \<open>Inl\<close> for the exception of \<open>_call_llm\<close>, which
  nothing in \<open>run_loop\<close> catches) and \<open>None\<close> when the loop goes on. The output of
  \<open>debug\<close> mode is not modelled.
\<close>

definition iteration_body ::
  "('x pydict \<Rightarrow> exn + string) \<Rightarrow> (string \<Rightarrow> 'w \<Rightarrow> 'w) option \<Rightarrow> ('w, 'x) run
     \<Rightarrow> (exn + string) option \<times> ('w, 'x) run" where
  "iteration_body dumps callback s0 =
     (let s1 = s0\<lparr>iteration := iteration s0 + 1,
                  trace := trace s0 @ [ModelCall (messages (self s0))]\<rparr> in
      case call_llm (self s1) (world s1) of
        (Inl e, w') \<Rightarrow> (Some (Inl e), s1\<lparr>world := w'\<rparr>)
      | (Inr response, w') \<Rightarrow>
          (let s2 = append_message ''assistant'' response (s1\<lparr>world := w'\<rparr>);
               s3 = s2\<lparr>full_response := full_response s2 @ [response]\<rparr>;
               s4 = notify callback response s3 in
           if str_in ''Answer:'' response then
             (Some (Inr (join [newline] (full_response s4))), s4)
           else if str_in ''PAUSE'' response then
             (case parse_action response of
                Some (tool_name, args) \<Rightarrow>
                  (case (case map_of (tools (self s4)) tool_name of
                           Some t \<Rightarrow> dispatch dumps tool_name t args s4
                         | None \<Rightarrow>
                             (let available_tools = join '', '' (map fst (tools (self s4)))
                              in (tool_not_found_observation tool_name available_tools, s4)))
                   of (observation, s5) \<Rightarrow>
                        (None, notify callback observation (append_message ''user'' observation s5)))
              | None \<Rightarrow>
                  (let observation = could_not_parse_observation
                   in (None, notify callback observation (append_message ''user'' observation s4))))
           else
             (let observation = expected_format_observation
              in (None, notify callback observation (append_message ''user'' observation s4)))))"

lemma iteration_body_iteration:
  "iteration (snd (iteration_body dumps callback s)) = iteration s + 1"
  by (simp add: iteration_body_def Let_def append_message_def notify_def dispatch_def
      split: prod.splits sum.splits option.splits)

text \<open>
  \<open>while iteration < max_iterations\<close>, and the \<open>return\<close> after it. The counter grows
  by one in each pass, so the loop ends.
\<close>

function while_loop ::
  "('x pydict \<Rightarrow> exn + string) \<Rightarrow> (string \<Rightarrow> 'w \<Rightarrow> 'w) option \<Rightarrow> int \<Rightarrow> ('w, 'x) run
     \<Rightarrow> (exn + string) \<times> ('w, 'x) run" where
  "while_loop dumps callback max_iters s =
     (if iteration s < max_iters then
        (case iteration_body dumps callback s of
           (Some outcome, s') \<Rightarrow> (outcome, s')
         | (None, s') \<Rightarrow> while_loop dumps callback max_iters s')
      else
        (Inr (join [newline] (full_response s) @ exceeded_notice), s))"
  by pat_completeness auto
termination
proof (relation "measure (\<lambda>(dumps, callback, max_iters, s). nat (max_iters - iteration s))")
  show "wf (measure (\<lambda>(dumps :: 'x pydict \<Rightarrow> exn + string, callback :: (string \<Rightarrow> 'w \<Rightarrow> 'w) option,
                        max_iters, s :: ('w, 'x) run). nat (max_iters - iteration s)))"
    by simp
next
  fix dumps :: "'x pydict \<Rightarrow> exn + string" and callback :: "(string \<Rightarrow> 'w \<Rightarrow> 'w) option"
    and max_iters :: int and s s' :: "('w, 'x) run" and out :: "(exn + string) option"
  assume lt: "iteration s < max_iters" and p: "(out, s') = iteration_body dumps callback s"
  from p have "s' = snd (iteration_body dumps callback s)"
    by (metis snd_conv)
  then have "iteration s' = iteration s + 1"
    by (simp add: iteration_body_iteration)
  with lt show "((dumps, callback, max_iters, s'), (dumps, callback, max_iters, s))
      \<in> measure (\<lambda>(dumps, callback, max_iters, s). nat (max_iters - iteration s))"
    by simp
qed

declare while_loop.simps [simp del]

text \<open>
  \<open>Agent.run_loop\<close>. \<open>max_iterations or self.max_iterations\<close> takes the instance's
  value when the argument is \<open>None\<close> or \<open>0\<close>. The result is the returned string or the
  raised exception, with the state the run leaves behind.
\<close>

definition run_loop ::
  "('x pydict \<Rightarrow> exn + string) \<Rightarrow> ('w, 'x) agent \<Rightarrow> 'w \<Rightarrow> string \<Rightarrow> (string \<Rightarrow> 'w \<Rightarrow> 'w) option
     \<Rightarrow> int option \<Rightarrow> bool \<Rightarrow> (exn + string) \<times> ('w, 'x) run" where
  "run_loop dumps a w query callback max_iterations_arg reset_conversation =
     (let max_iters =
            (case max_iterations_arg of
               None \<Rightarrow> max_iterations a
             | Some n \<Rightarrow> if n = 0 then max_iterations a else n);
          a1 = (if reset_conversation \<or> messages a = [] then reset a else a);
          a2 = a1\<lparr>messages := messages a1 @ [\<lparr>role = ''user'', content = ''Question: '' @ query\<rparr>]\<rparr>
      in while_loop dumps callback max_iters
           \<lparr>self = a2, world = w, iteration = 0, full_response = [], trace = []\<rparr>)"

subsection \<open>The parts of a run\<close>

text \<open>
  \<open>run_loop\<close> is its loop started from the state its first lines build: the ceiling
  in force, the conversation the run starts from, and the question appended to it.
\<close>

definition ceiling :: "('w, 'x) agent \<Rightarrow> int option \<Rightarrow> int" where
  "ceiling a max_iterations_arg =
     (case max_iterations_arg of
        None \<Rightarrow> max_iterations a
      | Some n \<Rightarrow> if n = 0 then max_iterations a else n)"

definition seeded :: "('w, 'x) agent \<Rightarrow> bool \<Rightarrow> message list" where
  "seeded a reset_conversation =
     (if reset_conversation \<or> messages a = []
      then [\<lparr>role = ''system'', content = system_prompt a\<rparr>] else messages a)"

definition start_state :: "('w, 'x) agent \<Rightarrow> 'w \<Rightarrow> string \<Rightarrow> bool \<Rightarrow> ('w, 'x) run" where
  "start_state a w query reset_conversation =
     \<lparr>self = a\<lparr>messages := seeded a reset_conversation
                  @ [\<lparr>role = ''user'', content = ''Question: '' @ query\<rparr>]\<rparr>,
      world = w, iteration = 0, full_response = [], trace = []\<rparr>"

text \<open>
  Two abbreviations for the proofs: the state once a reply has been appended, collected
  and passed to the callback, and the observation the rest of the body computes from a
  reply that does not answer. \<open>body_reply\<close> shows that they are what the body does.
\<close>

definition reply_state :: "(string \<Rightarrow> 'w \<Rightarrow> 'w) option \<Rightarrow> string \<Rightarrow> 'w \<Rightarrow> ('w, 'x) run \<Rightarrow> ('w, 'x) run" where
  "reply_state cb r w' s =
     notify cb r
       (s\<lparr>iteration := iteration s + 1,
          trace := trace s @ [ModelCall (messages (self s))],
          world := w',
          self := (self s)\<lparr>messages := messages (self s) @ [\<lparr>role = ''assistant'', content = r\<rparr>]\<rparr>,
          full_response := full_response s @ [r]\<rparr>)"

definition observe ::
  "('x pydict \<Rightarrow> exn + string) \<Rightarrow> string \<Rightarrow> ('w, 'x) run \<Rightarrow> string \<times> ('w, 'x) run" where
  "observe dumps r s =
     (if str_in ''PAUSE'' r then
        (case parse_action r of
           Some (tool_name, args) \<Rightarrow>
             (case map_of (tools (self s)) tool_name of
                Some t \<Rightarrow> dispatch dumps tool_name t args s
              | None \<Rightarrow>
                  (tool_not_found_observation tool_name (join '', '' (map fst (tools (self s)))), s))
         | None \<Rightarrow> (could_not_parse_observation, s))
      else (expected_format_observation, s))"

subsection \<open>Sequences of calls and the shape of the conversation\<close>

text \<open>
  A caller's use of an agent: a list of calls of \<open>reset\<close> and \<open>run_loop\<close>, each
  on the agent and the world the previous one left, whatever it returned or raised.
\<close>

datatype 'w call =
    Reset
  | RunLoop string "(string \<Rightarrow> 'w \<Rightarrow> 'w) option" "int option" bool

fun invoke ::
  "('x pydict \<Rightarrow> exn + string) \<Rightarrow> 'w call \<Rightarrow> ('w, 'x) agent \<times> 'w \<Rightarrow> ('w, 'x) agent \<times> 'w" where
  "invoke dumps Reset (a, w) = (reset a, w)"
| "invoke dumps (RunLoop query callback max_iterations_arg reset_conversation) (a, w) =
     (case run_loop dumps a w query callback max_iterations_arg reset_conversation of
        (outcome, s) \<Rightarrow> (self s, world s))"

definition invoke_all ::
  "('x pydict \<Rightarrow> exn + string) \<Rightarrow> 'w call list \<Rightarrow> ('w, 'x) agent \<times> 'w \<Rightarrow> ('w, 'x) agent \<times> 'w" where
  "invoke_all dumps calls start = fold (invoke dumps) calls start"

text \<open>
  The shape every conversation has: the system turn with the prompt first, then user and
  assistant turns, each assistant turn directly after a user turn.
\<close>

fun turns_ok :: "string \<Rightarrow> message list \<Rightarrow> bool" where
  "turns_ok previous [] = True"
| "turns_ok previous (t # ts) =
     ((role t = ''user'' \<or> (role t = ''assistant'' \<and> previous = ''user'')) \<and> turns_ok (role t) ts)"

definition conversation_ok :: "string \<Rightarrow> message list \<Rightarrow> bool" where
  "conversation_ok prompt ts =
     (case ts of
        [] \<Rightarrow> False
      | t # rest \<Rightarrow> t = \<lparr>role = ''system'', content = prompt\<rparr> \<and> turns_ok ''system'' rest)"

text \<open>
  Strict alternation, in the words of the specification: the system turn first, then
  user, assistant, user, assistant, and so on.
\<close>

fun alternating :: "string \<Rightarrow> message list \<Rightarrow> bool" where
  "alternating expected [] = True"
| "alternating expected (t # ts) =
     (role t = expected \<and> alternating (if expected = ''user'' then ''assistant'' else ''user'') ts)"

definition strictly_alternating :: "string \<Rightarrow> message list \<Rightarrow> bool" where
  "strictly_alternating prompt ts =
     (case ts of
        [] \<Rightarrow> False
      | t # rest \<Rightarrow> t = \<lparr>role = ''system'', content = prompt\<rparr> \<and> alternating ''user'' rest)"

section \<open>Concrete agents\<close>

text \<open>
  Small concrete collaborators, used to run the definitions. The world is a counter of
  the calls made to the model client. \<open>scripted\<close> is a client that returns the
  outcomes of a list in turn and times out after the last one; \<open>stalling\<close> is a client
  that never answers.
\<close>

definition weather_tool :: "(nat, int) tool" where
  "weather_tool =
     \<lparr>name = ''get_weather'', description = ''Get the current weather of a city'',
      required_args = True,
      execute = (\<lambda>args w.
        if args = ''Atlantis''
        then (Inl (Exn ToolExecutionError ''City not found'' None), w)
        else (Inr [(''city'', Str args), (''temperature'', Other 18)], w))\<rparr>"

definition keys_dumps :: "int pydict \<Rightarrow> exn + string" where
  "keys_dumps d = Inr (join '', '' (map fst d))"

definition scripted :: "(exn + string) list \<Rightarrow> message list \<Rightarrow> nat \<Rightarrow> (exn + string) \<times> nat" where
  "scripted outcomes msgs w =
     (if w < length outcomes then outcomes ! w
      else Inl (Exn (Builtin ''TimeoutError'') ''timed out'' None), Suc w)"

definition stalling :: "message list \<Rightarrow> nat \<Rightarrow> (exn + string) \<times> nat" where
  "stalling msgs w = (Inr ''Thought: let me think.'', Suc w)"

definition weather_agent :: "(message list \<Rightarrow> nat \<Rightarrow> (exn + string) \<times> nat) \<Rightarrow> (nat, int) agent" where
  "weather_agent client =
     \<lparr>tools = [(''get_weather'', weather_tool)], max_iterations = 10, messages = [],
      system_prompt = ''You run in a loop of Thought, Action, PAUSE, Observation.'',
      groq_client = client\<rparr>"






definition first_run :: "(exn + string) \<times> (nat, int) run" where
  "first_run =
     run_loop keys_dumps (weather_agent (scripted [Inr ''Answer: hello'', Inr ''Answer: again'']))
       0 ''Hi'' None None False"

definition second_run :: "(exn + string) \<times> (nat, int) run" where
  "second_run =
     run_loop keys_dumps (self (snd first_run)) (world (snd first_run)) ''More'' None None False"

definition stalled_twice :: "(nat, int) agent \<times> nat" where
  "stalled_twice =
     invoke_all keys_dumps
       [RunLoop ''Hi'' None (Some 1) False, RunLoop ''More'' None (Some 1) False]
       (weather_agent stalling, 0)"

section \<open>Auxiliary facts\<close>

lemma str_in_sublist: "str_in pat s = sublist pat s"
  by (induction s) (simp_all add: sublist_Cons_right)



lemma dispatch_frame:
  "dispatch dumps tool_name t args s = (obs, s') \<Longrightarrow>
     self s' = self s \<and> iteration s' = iteration s \<and> full_response s' = full_response s
     \<and> trace s' = trace s @ [ToolCall tool_name args]"
  by (auto simp: dispatch_def Let_def split: prod.splits sum.splits)

lemma notify_frame:
  "self (notify cb text s) = self s \<and> iteration (notify cb text s) = iteration s
   \<and> full_response (notify cb text s) = full_response s
   \<and> trace (notify cb text s) = trace s @ (case cb of None \<Rightarrow> [] | Some f \<Rightarrow> [Callback text])"
  by (simp add: notify_def split: option.splits)

lemma append_message_frame:
  "self (append_message r c s) = (self s)\<lparr>messages := messages (self s) @ [\<lparr>role = r, content = c\<rparr>]\<rparr>
   \<and> iteration (append_message r c s) = iteration s
   \<and> full_response (append_message r c s) = full_response s
   \<and> trace (append_message r c s) = trace s \<and> world (append_message r c s) = world s"
  by (simp add: append_message_def)

lemma body_failure:
  assumes "groq_client (self s) (messages (self s)) (world s) = (Inl e, w')"
  shows "iteration_body dumps cb s =
    (Some (Inl (Exn LLMAPIError (''Error calling Groq API: '' @ str_of e) (Some e))),
     s\<lparr>iteration := iteration s + 1, trace := trace s @ [ModelCall (messages (self s))], world := w'\<rparr>)"
  using assms by (simp add: iteration_body_def call_llm_def Let_def)

lemma body_reply:
  assumes "groq_client (self s) (messages (self s)) (world s) = (Inr r, w')"
  shows "iteration_body dumps cb s =
    (if str_in ''Answer:'' r then
       (Some (Inr (join [newline] (full_response s @ [r]))), reply_state cb r w' s)
     else (case observe dumps r (reply_state cb r w' s) of
             (obs, s5) \<Rightarrow> (None, notify cb obs (append_message ''user'' obs s5))))"
  using assms
  by (simp add: iteration_body_def call_llm_def Let_def reply_state_def observe_def
      append_message_def notify_frame split: option.splits prod.splits)

lemma reply_state_frame:
  "self (reply_state cb r w' s) = (self s)\<lparr>messages := messages (self s) @ [\<lparr>role = ''assistant'', content = r\<rparr>]\<rparr>"
  "iteration (reply_state cb r w' s) = iteration s + 1"
  "full_response (reply_state cb r w' s) = full_response s @ [r]"
  "trace (reply_state cb r w' s) =
     trace s @ ModelCall (messages (self s)) # (case cb of None \<Rightarrow> [] | Some f \<Rightarrow> [Callback r])"
  "world (reply_state cb r w' s) = (case cb of None \<Rightarrow> w' | Some f \<Rightarrow> f r w')"
  by (simp_all add: reply_state_def notify_def split: option.splits)

lemma observe_frame:
  assumes "observe dumps r s = (obs, s5)"
  shows "self s5 = self s" "iteration s5 = iteration s" "full_response s5 = full_response s"
    "trace s5 = trace s \<or> (\<exists>n a. trace s5 = trace s @ [ToolCall n a])"
  using assms
  by (auto simp: observe_def split: if_splits option.splits prod.splits dest!: dispatch_frame)

lemma body_continue:
  assumes g: "groq_client (self s) (messages (self s)) (world s) = (Inr r, w')"
    and na: "\<not> str_in ''Answer:'' r"
    and b: "iteration_body dumps cb s = (out, s')"
  shows "out = None \<and> iteration s' = iteration s + 1 \<and> full_response s' = full_response s @ [r]
    \<and> (\<exists>obs. self s' = (self s)\<lparr>messages := messages (self s)
           @ [\<lparr>role = ''assistant'', content = r\<rparr>, \<lparr>role = ''user'', content = obs\<rparr>]\<rparr>)
    \<and> (\<exists>evs. trace s' = trace s @ ModelCall (messages (self s)) # evs \<and> (\<forall>ev \<in> set evs. \<not> is_ModelCall ev))"
proof -
  obtain obs s5 where o: "observe dumps r (reply_state cb r w' s) = (obs, s5)"
    by (cases "observe dumps r (reply_state cb r w' s)")
  from b have out: "out = None" and s': "s' = notify cb obs (append_message ''user'' obs s5)"
    by (simp_all add: body_reply[OF g] na o)
  note fr = observe_frame[OF o] reply_state_frame notify_frame append_message_frame
  have "self s' = (self s)\<lparr>messages := messages (self s)
           @ [\<lparr>role = ''assistant'', content = r\<rparr>, \<lparr>role = ''user'', content = obs\<rparr>]\<rparr>"
    by (simp add: s' fr)
  moreover have "\<exists>evs. trace s' = trace s @ ModelCall (messages (self s)) # evs \<and> (\<forall>ev \<in> set evs. \<not> is_ModelCall ev)"
    using observe_frame(4)[OF o] by (auto simp: s' fr split: option.splits)
  moreover have "iteration s' = iteration s + 1" "full_response s' = full_response s @ [r]"
    by (simp_all add: s' fr)
  ultimately show ?thesis
    using out by blast
qed


lemma body_shape:
  assumes b: "iteration_body dumps cb s = (out, s')"
  shows "\<exists>new. self s' = (self s)\<lparr>messages := messages (self s) @ new\<rparr> \<and>
     (case out of
        Some (Inl x) \<Rightarrow> new = [] \<and>
          (\<exists>e w'. groq_client (self s) (messages (self s)) (world s) = (Inl e, w')
             \<and> x = Exn LLMAPIError (''Error calling Groq API: '' @ str_of e) (Some e))
      | Some (Inr txt) \<Rightarrow> (\<exists>r. new = [\<lparr>role = ''assistant'', content = r\<rparr>])
      | None \<Rightarrow> (\<exists>r obs. new = [\<lparr>role = ''assistant'', content = r\<rparr>, \<lparr>role = ''user'', content = obs\<rparr>]))"
proof (cases "groq_client (self s) (messages (self s)) (world s)")
  case (Pair res w')
  show ?thesis
  proof (cases res)
    case (Inl e)
    with Pair b show ?thesis
      by (auto simp: body_failure)
  next
    case (Inr r)
    with Pair have g: "groq_client (self s) (messages (self s)) (world s) = (Inr r, w')"
      by simp
    show ?thesis
    proof (cases "str_in ''Answer:'' r")
      case True
      with b have "out = Some (Inr (join [newline] (full_response s @ [r])))"
        and "s' = reply_state cb r w' s"
        by (simp_all add: body_reply[OF g])
      then show ?thesis
        by (auto simp: reply_state_frame)
    next
      case False
      from body_continue[OF g False b] show ?thesis
        by auto
    qed
  qed
qed

lemma while_loop_step:
  "iteration s < m \<Longrightarrow>
     while_loop dumps cb m s =
       (case iteration_body dumps cb s of
          (Some outcome, s') \<Rightarrow> (outcome, s')
        | (None, s') \<Rightarrow> while_loop dumps cb m s')"
  by (subst while_loop.simps) simp

lemma while_loop_exit:
  "\<not> iteration s < m \<Longrightarrow>
     while_loop dumps cb m s =
       (Inr (join [newline] (full_response s) @ exceeded_notice), s)"
  by (subst while_loop.simps) simp

lemma while_loop_rule:
  assumes "P s"
    and exit: "\<And>s. P s \<Longrightarrow> \<not> iteration s < m \<Longrightarrow>
        Q (Inr (join [newline] (full_response s) @ exceeded_notice)) s"
    and leave: "\<And>s outcome s'. P s \<Longrightarrow> iteration s < m \<Longrightarrow>
        iteration_body dumps cb s = (Some outcome, s') \<Longrightarrow> Q outcome s'"
    and step: "\<And>s s'. P s \<Longrightarrow> iteration s < m \<Longrightarrow>
        iteration_body dumps cb s = (None, s') \<Longrightarrow> P s'"
  shows "Q (fst (while_loop dumps cb m s)) (snd (while_loop dumps cb m s))"
  using assms(1)
proof (induction "nat (m - iteration s)" arbitrary: s rule: less_induct)
  case less
  show ?case
  proof (cases "iteration s < m")
    case False
    from exit[OF less.prems False] show ?thesis
      by (simp add: while_loop_exit[OF False])
  next
    case True
    obtain out s' where b: "iteration_body dumps cb s = (out, s')"
      by (cases "iteration_body dumps cb s")
    have it: "iteration s' = iteration s + 1"
      using iteration_body_iteration[of dumps cb s] b by simp
    show ?thesis
    proof (cases out)
      case None
      with step[OF less.prems True] b have "P s'" by simp
      moreover from it True have "nat (m - iteration s') < nat (m - iteration s)" by simp
      ultimately have "Q (fst (while_loop dumps cb m s')) (snd (while_loop dumps cb m s'))"
        by (rule less.hyps[rotated])
      then show ?thesis
        using True b None by (simp add: while_loop_step)
    next
      case (Some outcome)
      with leave[OF less.prems True] b show ?thesis
        using True by (simp add: while_loop_step)
    qed
  qed
qed


lemma observe_malformed:
  assumes "str_in ''PAUSE'' r \<longrightarrow> parse_action r = None"
  shows "observe dumps r s =
    (if str_in ''PAUSE'' r then could_not_parse_observation else expected_format_observation, s)"
  using assms by (simp add: observe_def)

lemma body_observed:
  assumes g: "groq_client (self s) (messages (self s)) (world s) = (Inr r, w')"
    and na: "\<not> str_in ''Answer:'' r"
    and o: "observe dumps r (reply_state cb r w' s) = (obs, reply_state cb r w' s)"
  shows "\<exists>s'. iteration_body dumps cb s = (None, s')
     \<and> self s' = (self s)\<lparr>messages := messages (self s)
           @ [\<lparr>role = ''assistant'', content = r\<rparr>, \<lparr>role = ''user'', content = obs\<rparr>]\<rparr>
     \<and> iteration s' = iteration s + 1
     \<and> full_response s' = full_response s @ [r]
     \<and> trace s' = trace s @ ModelCall (messages (self s))
          # (case cb of None \<Rightarrow> [] | Some f \<Rightarrow> [Callback r, Callback obs])"
  by (simp add: body_reply[OF g] na o notify_frame append_message_frame reply_state_frame
      split: option.splits)

lemma run_loop_start:
  "run_loop dumps a w query cb max_iterations_arg reset_conversation
     = while_loop dumps cb (ceiling a max_iterations_arg) (start_state a w query reset_conversation)"
  by (simp add: run_loop_def Let_def ceiling_def start_state_def seeded_def reset_def)

lemma start_state_frame:
  "self (start_state a w query rc)
     = a\<lparr>messages := seeded a rc @ [\<lparr>role = ''user'', content = ''Question: '' @ query\<rparr>]\<rparr>"
  "world (start_state a w query rc) = w" "iteration (start_state a w query rc) = 0"
  "full_response (start_state a w query rc) = []" "trace (start_state a w query rc) = []"
  by (simp_all add: start_state_def)


lemma body_trace:
  assumes "iteration_body dumps cb s = (out, s')"
  shows "\<exists>evs. trace s' = trace s @ ModelCall (messages (self s)) # evs"
proof (cases "groq_client (self s) (messages (self s)) (world s)")
  case (Pair res w')
  show ?thesis
  proof (cases res)
    case (Inl e)
    with Pair assms show ?thesis by (auto simp: body_failure)
  next
    case (Inr r)
    with Pair have g: "groq_client (self s) (messages (self s)) (world s) = (Inr r, w')" by simp
    show ?thesis
    proof (cases "str_in ''Answer:'' r")
      case True
      with assms have "s' = reply_state cb r w' s" by (simp add: body_reply[OF g])
      then show ?thesis by (simp add: reply_state_frame)
    next
      case False
      from body_continue[OF g False assms] show ?thesis by blast
    qed
  qed
qed

lemma while_loop_trace:
  "\<exists>evs. trace (snd (while_loop dumps cb m s)) = trace s @ evs"
proof -
  let ?P = "\<lambda>t :: ('a, 'b) run. \<exists>evs. trace t = trace s @ evs"
  have "(\<lambda>out. ?P) (fst (while_loop dumps cb m s)) (snd (while_loop dumps cb m s))"
  proof (rule while_loop_rule[where P = ?P])
    show "?P s" by simp
  next
    fix t assume "?P t" then show "?P t" .
  next
    fix t outcome t'
    assume "?P t" and "iteration_body dumps cb t = (Some outcome, t')"
    with body_trace[of dumps cb t "Some outcome" t'] show "?P t'" by auto
  next
    fix t t'
    assume "?P t" and "iteration_body dumps cb t = (None, t')"
    with body_trace[of dumps cb t None t'] show "?P t'" by auto
  qed
  then show ?thesis .
qed

lemma while_loop_first_call:
  assumes "iteration s < m"
  shows "\<exists>evs. trace (snd (while_loop dumps cb m s)) = trace s @ ModelCall (messages (self s)) # evs"
proof -
  obtain out s' where b: "iteration_body dumps cb s = (out, s')"
    by (cases "iteration_body dumps cb s")
  from body_trace[OF b] obtain evs where t: "trace s' = trace s @ ModelCall (messages (self s)) # evs"
    by blast
  show ?thesis
  proof (cases out)
    case None
    with assms b have "while_loop dumps cb m s = while_loop dumps cb m s'"
      by (simp add: while_loop_step)
    with while_loop_trace[of dumps cb m s'] t show ?thesis by auto
  next
    case (Some outcome)
    with assms b have "while_loop dumps cb m s = (outcome, s')"
      by (simp add: while_loop_step)
    with t show ?thesis by simp
  qed
qed


lemma while_loop_messages:
  "\<exists>new. self (snd (while_loop dumps cb m s)) = (self s)\<lparr>messages := messages (self s) @ new\<rparr>"
proof -
  let ?P = "\<lambda>t :: ('a, 'b) run. \<exists>new. self t = (self s)\<lparr>messages := messages (self s) @ new\<rparr>"
  have "(\<lambda>out. ?P) (fst (while_loop dumps cb m s)) (snd (while_loop dumps cb m s))"
  proof (rule while_loop_rule[where P = ?P])
    show "?P s" by (rule exI[of _ "[]"]) simp
  next
    fix t assume "?P t" then show "?P t" .
  next
    fix t outcome t'
    assume "?P t" and "iteration_body dumps cb t = (Some outcome, t')"
    with body_shape[of dumps cb t "Some outcome" t'] show "?P t'" by auto
  next
    fix t t'
    assume "?P t" and "iteration_body dumps cb t = (None, t')"
    with body_shape[of dumps cb t None t'] show "?P t'" by auto
  qed
  then show ?thesis .
qed

lemma run_loop_messages:
  assumes "run_loop dumps a w query cb mi rc = (out, s)"
  shows "\<exists>new. self s = a\<lparr>messages := seeded a rc
      @ \<lparr>role = ''user'', content = ''Question: '' @ query\<rparr> # new\<rparr>"
proof -
  from assms have "s = snd (while_loop dumps cb (ceiling a mi) (start_state a w query rc))"
    by (simp add: run_loop_start)
  with while_loop_messages[of dumps cb "ceiling a mi" "start_state a w query rc"]
  show ?thesis
    by (auto simp: start_state_frame)
qed


text \<open>The definitions that running a concrete agent unfolds.\<close>

lemmas run_eval = run_loop_start ceiling_def start_state_def seeded_def weather_agent_def
  scripted_def stalling_def while_loop_step while_loop_exit iteration_body_def call_llm_def Let_def
  append_message_def notify_def dispatch_def safe_execute_def weather_tool_def keys_dumps_def
  match_action_def ascii_lower_def tool_name_char_def newline_def
  tool_not_found_observation_def could_not_parse_observation_def expected_format_observation_def
  exceeded_notice_def tool_error_observation_def

lemma first_run_messages:
  "messages (self (snd first_run))
     = [\<lparr>role = ''system'', content = ''You run in a loop of Thought, Action, PAUSE, Observation.''\<rparr>,
        \<lparr>role = ''user'', content = ''Question: Hi''\<rparr>,
        \<lparr>role = ''assistant'', content = ''Answer: hello''\<rparr>]"
  by (simp add: first_run_def run_eval)

lemma turns_ok_append:
  "turns_ok p (xs @ ys) = (turns_ok p xs \<and> turns_ok (if xs = [] then p else role (last xs)) ys)"
  by (induction xs arbitrary: p) auto

lemma conversation_ok_append:
  assumes "conversation_ok sp ts"
  shows "conversation_ok sp (ts @ new) = turns_ok (role (last ts)) new"
proof (cases ts)
  case Nil
  with assms show ?thesis by (simp add: conversation_ok_def)
next
  case (Cons t rest)
  with assms show ?thesis
    by (auto simp: conversation_ok_def turns_ok_append)
qed

lemma while_loop_conversation_ok:
  assumes "conversation_ok sp (messages (self s))" and "role (last (messages (self s))) = ''user''"
  shows "conversation_ok sp (messages (self (snd (while_loop dumps cb m s))))"
proof -
  let ?Q = "\<lambda>t :: ('a, 'b) run. conversation_ok sp (messages (self t))"
  let ?P = "\<lambda>t :: ('a, 'b) run. ?Q t \<and> role (last (messages (self t))) = ''user''"
  have "(\<lambda>out. ?Q) (fst (while_loop dumps cb m s)) (snd (while_loop dumps cb m s))"
  proof (rule while_loop_rule[where P = ?P])
    show "?P s" using assms by simp
  next
    fix t assume "?P t" then show "?Q t" by simp
  next
    fix t outcome t'
    assume "?P t" and "iteration_body dumps cb t = (Some outcome, t')"
    with body_shape[of dumps cb t "Some outcome" t'] show "?Q t'"
      by (cases outcome) (auto simp: conversation_ok_append)
  next
    fix t t'
    assume "?P t" and "iteration_body dumps cb t = (None, t')"
    with body_shape[of dumps cb t None t'] show "?P t'"
      by (auto simp: conversation_ok_append)
  qed
  then show ?thesis .
qed

lemma seeded_ok:
  assumes "messages a = [] \<or> conversation_ok (system_prompt a) (messages a)"
  shows "conversation_ok (system_prompt a) (seeded a rc)"
  using assms by (auto simp: seeded_def conversation_ok_def)

lemma run_loop_conversation_ok:
  assumes "messages a = [] \<or> conversation_ok (system_prompt a) (messages a)"
    and "run_loop dumps a w query cb mi rc = (out, s)"
  shows "conversation_ok (system_prompt a) (messages (self s)) \<and> system_prompt (self s) = system_prompt a"
proof -
  let ?s = "start_state a w query rc"
  have "conversation_ok (system_prompt a) (messages (self ?s))"
    by (simp add: start_state_frame conversation_ok_append[OF seeded_ok[OF assms(1)]])
  moreover have "role (last (messages (self ?s))) = ''user''"
    by (simp add: start_state_frame)
  ultimately have "conversation_ok (system_prompt a)
      (messages (self (snd (while_loop dumps cb (ceiling a mi) ?s))))"
    by (rule while_loop_conversation_ok)
  moreover from run_loop_messages[OF assms(2)] have "system_prompt (self s) = system_prompt a"
    by auto
  ultimately show ?thesis
    using assms(2) by (simp add: run_loop_start)
qed

lemma invoke_ok:
  assumes "messages a = [] \<or> conversation_ok (system_prompt a) (messages a)"
    and "invoke dumps c (a, w) = (a', w')"
  shows "conversation_ok (system_prompt a) (messages a') \<and> system_prompt a' = system_prompt a"
proof (cases c)
  case Reset
  with assms(2) show ?thesis
    by (auto simp: reset_def conversation_ok_def)
next
  case (RunLoop query cb mi rc)
  obtain out s where r: "run_loop dumps a w query cb mi rc = (out, s)"
    by (cases "run_loop dumps a w query cb mi rc")
  with assms(2) RunLoop have "a' = self s" by simp
  with run_loop_conversation_ok[OF assms(1) r] show ?thesis by simp
qed

lemma invoke_all_ok:
  assumes "conversation_ok (system_prompt a) (messages a)"
  shows "conversation_ok (system_prompt a) (messages (fst (invoke_all dumps calls (a, w))))
     \<and> system_prompt (fst (invoke_all dumps calls (a, w))) = system_prompt a"
  using assms
proof (induction calls arbitrary: a w)
  case Nil
  then show ?case by (simp add: invoke_all_def)
next
  case (Cons c calls)
  obtain a' w' where i: "invoke dumps c (a, w) = (a', w')"
    by (cases "invoke dumps c (a, w)")
  from invoke_ok[OF _ i] Cons.prems have ok: "conversation_ok (system_prompt a) (messages a')"
    and sp: "system_prompt a' = system_prompt a"
    by simp_all
  from Cons.IH[of a' w'] ok sp show ?case
    by (simp add: invoke_all_def i)
qed


lemma alternating_append:
  "alternating e (xs @ ys)
     = (alternating e xs
        \<and> alternating (if xs = [] then e
                        else if role (last xs) = ''user'' then ''assistant'' else ''user'') ys)"
  by (induction xs arbitrary: e) auto

lemma strictly_alternating_append:
  assumes "strictly_alternating sp ts"
  shows "strictly_alternating sp (ts @ new)
     = alternating (if role (last ts) = ''user'' then ''assistant'' else ''user'') new"
proof (cases ts)
  case Nil
  with assms show ?thesis by (simp add: strictly_alternating_def)
next
  case (Cons t rest)
  with assms show ?thesis
    by (auto simp: strictly_alternating_def alternating_append)
qed

lemma alternating_turns_ok:
  "alternating e ts \<Longrightarrow> e = ''user'' \<or> (e = ''assistant'' \<and> p = ''user'') \<Longrightarrow> turns_ok p ts"
  by (induction ts arbitrary: e p) (auto split: if_splits)

lemma strictly_alternating_conversation_ok:
  "strictly_alternating sp ts \<Longrightarrow> conversation_ok sp ts"
  by (cases ts) (auto simp: strictly_alternating_def conversation_ok_def intro: alternating_turns_ok)



lemma while_loop_strictly_alternating:
  assumes "strictly_alternating sp (messages (self s))" and "role (last (messages (self s))) = ''user''"
  shows "strictly_alternating sp (messages (self (snd (while_loop dumps cb m s))))"
proof -
  let ?Q = "\<lambda>t :: ('a, 'b) run. strictly_alternating sp (messages (self t))"
  let ?P = "\<lambda>t :: ('a, 'b) run. ?Q t \<and> role (last (messages (self t))) = ''user''"
  have "(\<lambda>out. ?Q) (fst (while_loop dumps cb m s)) (snd (while_loop dumps cb m s))"
  proof (rule while_loop_rule[where P = ?P])
    show "?P s" using assms by simp
  next
    fix t assume "?P t" then show "?Q t" by simp
  next
    fix t outcome t'
    assume "?P t" and "iteration_body dumps cb t = (Some outcome, t')"
    with body_shape[of dumps cb t "Some outcome" t'] show "?Q t'"
      by (cases outcome) (auto simp: strictly_alternating_append)
  next
    fix t t'
    assume "?P t" and "iteration_body dumps cb t = (None, t')"
    with body_shape[of dumps cb t None t'] show "?P t'"
      by (auto simp: strictly_alternating_append)
  qed
  then show ?thesis .
qed



lemma run_loop_strictly_alternating:
  assumes "rc \<or> messages a = []
      \<or> (strictly_alternating (system_prompt a) (messages a) \<and> role (last (messages a)) \<noteq> ''user'')"
  shows "strictly_alternating (system_prompt a) (messages (self (snd (run_loop dumps a w query cb mi rc))))"
proof -
  let ?s = "start_state a w query rc"
  have sa: "strictly_alternating (system_prompt a) (seeded a rc)"
    and l: "role (last (seeded a rc)) \<noteq> ''user''"
    using assms by (auto simp: seeded_def strictly_alternating_def)
  have "strictly_alternating (system_prompt a) (messages (self ?s))"
    using l by (simp add: start_state_frame strictly_alternating_append[OF sa])
  moreover have "role (last (messages (self ?s))) = ''user''"
    by (simp add: start_state_frame)
  ultimately have "strictly_alternating (system_prompt a)
      (messages (self (snd (while_loop dumps cb (ceiling a mi) ?s))))"
    by (rule while_loop_strictly_alternating)
  then show ?thesis
    by (simp add: run_loop_start)
qed

lemma stalling_single_pass:
  fixes a :: "(nat, int) agent"
  assumes "groq_client a = stalling"
  shows "messages (self (snd (run_loop keys_dumps a w query None (Some 1) rc)))
     = seeded a rc
       @ [\<lparr>role = ''user'', content = ''Question: '' @ query\<rparr>,
          \<lparr>role = ''assistant'', content = ''Thought: let me think.''\<rparr>,
          \<lparr>role = ''user'', content = expected_format_observation\<rparr>]
   \<and> groq_client (self (snd (run_loop keys_dumps a w query None (Some 1) rc))) = stalling
   \<and> system_prompt (self (snd (run_loop keys_dumps a w query None (Some 1) rc))) = system_prompt a"
proof -
  let ?s = "start_state a w query rc"
  let ?r = "''Thought: let me think.''"
  have g: "groq_client (self ?s) (messages (self ?s)) (world ?s) = (Inr ?r, Suc w)"
    by (simp add: start_state_frame assms stalling_def)
  have na: "\<not> str_in ''Answer:'' ?r" and np: "\<not> str_in ''PAUSE'' ?r"
    by simp_all
  from np have "observe keys_dumps ?r (reply_state None ?r (Suc w) ?s)
      = (expected_format_observation, reply_state None ?r (Suc w) ?s)"
    by (simp add: observe_malformed)
  from body_observed[OF g na this] obtain s' where b: "iteration_body keys_dumps None ?s = (None, s')"
    and se: "self s' = (self ?s)\<lparr>messages := messages (self ?s)
           @ [\<lparr>role = ''assistant'', content = ?r\<rparr>,
              \<lparr>role = ''user'', content = expected_format_observation\<rparr>]\<rparr>"
    and it: "iteration s' = iteration ?s + 1"
    by blast
  have "while_loop keys_dumps None 1 ?s = while_loop keys_dumps None 1 s'"
    using b by (simp add: while_loop_step start_state_frame)
  moreover have "snd (while_loop keys_dumps None 1 s') = s'"
    using it by (simp add: while_loop_exit start_state_frame)
  ultimately have "snd (run_loop keys_dumps a w query None (Some 1) rc) = s'"
    by (simp add: run_loop_start ceiling_def)
  then show ?thesis
    by (simp add: se start_state_frame assms)
qed

lemma stalled_twice_messages:
  "messages (fst stalled_twice)
     = [\<lparr>role = ''system'', content = ''You run in a loop of Thought, Action, PAUSE, Observation.''\<rparr>,
        \<lparr>role = ''user'', content = ''Question: Hi''\<rparr>,
        \<lparr>role = ''assistant'', content = ''Thought: let me think.''\<rparr>,
        \<lparr>role = ''user'', content = expected_format_observation\<rparr>,
        \<lparr>role = ''user'', content = ''Question: More''\<rparr>,
        \<lparr>role = ''assistant'', content = ''Thought: let me think.''\<rparr>,
        \<lparr>role = ''user'', content = expected_format_observation\<rparr>]"
proof -
  let ?a = "weather_agent stalling :: (nat, int) agent"
  let ?r1 = "run_loop keys_dumps ?a 0 ''Hi'' None (Some 1) False"
  let ?a1 = "self (snd ?r1)"
  let ?r2 = "run_loop keys_dumps ?a1 (world (snd ?r1)) ''More'' None (Some 1) False"
  have g: "groq_client ?a = stalling"
    by (simp add: weather_agent_def)
  have sd: "seeded ?a False
      = [\<lparr>role = ''system'', content = ''You run in a loop of Thought, Action, PAUSE, Observation.''\<rparr>]"
    by (simp add: seeded_def weather_agent_def)
  note 1 = stalling_single_pass[OF g, of 0 "''Hi''" False]
  from 1 have g1: "groq_client ?a1 = stalling" by simp
  from 1 sd have m1: "messages ?a1
      = [\<lparr>role = ''system'', content = ''You run in a loop of Thought, Action, PAUSE, Observation.''\<rparr>,
         \<lparr>role = ''user'', content = ''Question: Hi''\<rparr>,
         \<lparr>role = ''assistant'', content = ''Thought: let me think.''\<rparr>,
         \<lparr>role = ''user'', content = expected_format_observation\<rparr>]"
    by simp
  then have sd1: "seeded ?a1 False = messages ?a1"
    by (simp add: seeded_def)
  note 2 = stalling_single_pass[OF g1, of "world (snd ?r1)" "''More''" False]
  have "fst stalled_twice = self (snd ?r2)"
    by (simp add: stalled_twice_def invoke_all_def split: prod.splits)
  with 2 sd1 m1 show ?thesis
    by simp
qed

section \<open>Tool.safe_execute\<close>



section \<open>Leaving the loop with an answer\<close>



section \<open>Leaving the loop at the ceiling\<close>



text \<open>
  C10. An override of \<open>0\<close> is the same as no override: the run is the one with the
  instance's \<open>max_iterations\<close> as its ceiling, and when that is positive the run starts
  with a call of the model on the seeded conversation, rather than making none.
\<close>

theorem zero_override_uses_default:
  "run_loop dumps a w query callback (Some 0) reset_conversation
     = run_loop dumps a w query callback None reset_conversation
   \<and> run_loop dumps a w query callback (Some 0) reset_conversation
     = run_loop dumps a w query callback (Some (max_iterations a)) reset_conversation
   \<and> (0 < max_iterations a \<longrightarrow>
        (\<exists>evs. trace (snd (run_loop dumps a w query callback (Some 0) reset_conversation))
           = ModelCall ((if reset_conversation \<or> messages a = []
                         then [\<lparr>role = ''system'', content = system_prompt a\<rparr>] else messages a)
                        @ [\<lparr>role = ''user'', content = ''Question: '' @ query\<rparr>]) # evs))"
proof (intro conjI impI)
  show "run_loop dumps a w query callback (Some 0) reset_conversation
     = run_loop dumps a w query callback None reset_conversation"
    by (simp add: run_loop_start ceiling_def)
  show "run_loop dumps a w query callback (Some 0) reset_conversation
     = run_loop dumps a w query callback (Some (max_iterations a)) reset_conversation"
    by (simp add: run_loop_start ceiling_def)
next
  assume "0 < max_iterations a"
  then have "iteration (start_state a w query reset_conversation) < ceiling a (Some 0)"
    by (simp add: start_state_frame ceiling_def)
  from while_loop_first_call[OF this, of dumps callback]
  show "\<exists>evs. trace (snd (run_loop dumps a w query callback (Some 0) reset_conversation))
           = ModelCall ((if reset_conversation \<or> messages a = []
                         then [\<lparr>role = ''system'', content = system_prompt a\<rparr>] else messages a)
                        @ [\<lparr>role = ''user'', content = ''Question: '' @ query\<rparr>]) # evs"
    by (simp add: run_loop_start start_state_frame seeded_def)
qed

theorem zero_override_uses_default_witness:
  "(0::int) < max_iterations (weather_agent stalling :: (nat, int) agent)
   \<and> (\<exists>evs. trace (snd (run_loop keys_dumps (weather_agent stalling) 0 ''Hi'' None (Some 0) False))
         = ModelCall [\<lparr>role = ''system'', content = ''You run in a loop of Thought, Action, PAUSE, Observation.''\<rparr>,
                      \<lparr>role = ''user'', content = ''Question: Hi''\<rparr>] # evs)"
proof -
  let ?a = "weather_agent stalling :: (nat, int) agent"
  have p: "0 < max_iterations ?a"
    by (simp add: weather_agent_def)
  have m: "messages ?a = []" "system_prompt ?a = ''You run in a loop of Thought, Action, PAUSE, Observation.''"
    by (simp_all add: weather_agent_def)
  from zero_override_uses_default[of keys_dumps ?a 0 "''Hi''" None False] p
  have "\<exists>evs. trace (snd (run_loop keys_dumps ?a 0 ''Hi'' None (Some 0) False))
           = ModelCall ((if False \<or> messages ?a = []
                         then [\<lparr>role = ''system'', content = system_prompt ?a\<rparr>] else messages ?a)
                        @ [\<lparr>role = ''user'', content = ''Question: '' @ ''Hi''\<rparr>]) # evs"
    by blast
  then have "\<exists>evs. trace (snd (run_loop keys_dumps ?a 0 ''Hi'' None (Some 0) False))
         = ModelCall [\<lparr>role = ''system'', content = ''You run in a loop of Thought, Action, PAUSE, Observation.''\<rparr>,
                      \<lparr>role = ''user'', content = ''Question: Hi''\<rparr>] # evs"
    by (simp add: m)
  with p show ?thesis by blast
qed

section \<open>Observations for replies that do not answer\<close>






text \<open>
  C6. A reply without \<open>Answer:\<close> that has \<open>PAUSE\<close> but no action line that parses gets
  the fixed text asking for the action format as the next user turn; a reply with neither
  \<open>Answer:\<close> nor \<open>PAUSE\<close> gets the other fixed text. In both cases the body does not
  leave the loop: the run goes on from the new state, and no tool is called.
\<close>

theorem malformed_reply_corrected:
  assumes "iteration s < max_iters"
    and "groq_client (self s) (messages (self s)) (world s) = (Inr r, w')"
    and "\<not> str_in ''Answer:'' r"
    and "str_in ''PAUSE'' r \<longrightarrow> parse_action r = None"
  shows "\<exists>s'. iteration_body dumps callback s = (None, s')
     \<and> while_loop dumps callback max_iters s = while_loop dumps callback max_iters s'
     \<and> messages (self s') = messages (self s)
         @ [\<lparr>role = ''assistant'', content = r\<rparr>,
            \<lparr>role = ''user'',
             content =
               (if str_in ''PAUSE'' r
                then ''Observation: Could not parse action. Please use the format ''
                       @ [CHR 0x27] @ ''Action: tool_name: arguments'' @ [CHR 0x27]
                else ''Observation: Expected '' @ [CHR 0x27] @ ''Action: tool_name: arguments''
                       @ [CHR 0x27] @ '' followed by '' @ [CHR 0x27] @ ''PAUSE'' @ [CHR 0x27]
                       @ ''. Please follow the format.'')\<rparr>]
     \<and> (\<forall>ev \<in> set (drop (length (trace s)) (trace s')). \<not> is_ToolCall ev)"
proof -
  let ?s4 = "reply_state callback r w' s"
  from body_observed[OF assms(2,3) observe_malformed[OF assms(4)]]
  obtain s' where b: "iteration_body dumps callback s = (None, s')"
    and m: "self s' = (self s)\<lparr>messages := messages (self s)
           @ [\<lparr>role = ''assistant'', content = r\<rparr>,
              \<lparr>role = ''user'', content = (if str_in ''PAUSE'' r then could_not_parse_observation
                 else expected_format_observation)\<rparr>]\<rparr>"
    and t: "trace s' = trace s @ ModelCall (messages (self s))
          # (case callback of None \<Rightarrow> []
             | Some f \<Rightarrow> [Callback r, Callback (if str_in ''PAUSE'' r
                 then could_not_parse_observation else expected_format_observation)])"
    by blast
  have "while_loop dumps callback max_iters s = while_loop dumps callback max_iters s'"
    using assms(1) b by (simp add: while_loop_step)
  moreover have "\<forall>ev \<in> set (drop (length (trace s)) (trace s')). \<not> is_ToolCall ev"
    by (auto simp: t split: option.splits)
  moreover have "messages (self s') = messages (self s)
         @ [\<lparr>role = ''assistant'', content = r\<rparr>,
            \<lparr>role = ''user'',
             content =
               (if str_in ''PAUSE'' r
                then ''Observation: Could not parse action. Please use the format ''
                       @ [CHR 0x27] @ ''Action: tool_name: arguments'' @ [CHR 0x27]
                else ''Observation: Expected '' @ [CHR 0x27] @ ''Action: tool_name: arguments''
                       @ [CHR 0x27] @ '' followed by '' @ [CHR 0x27] @ ''PAUSE'' @ [CHR 0x27]
                       @ ''. Please follow the format.'')\<rparr>]"
    by (simp add: m could_not_parse_observation_def expected_format_observation_def)
  ultimately show ?thesis
    using b by blast
qed

theorem malformed_reply_corrected_witness:
  "messages (self (snd (iteration_body keys_dumps None
      (start_state (weather_agent (scripted [Inr ''PAUSE''])) 0 ''Hi'' False))))
   = [\<lparr>role = ''system'', content = ''You run in a loop of Thought, Action, PAUSE, Observation.''\<rparr>,
      \<lparr>role = ''user'', content = ''Question: Hi''\<rparr>,
      \<lparr>role = ''assistant'', content = ''PAUSE''\<rparr>,
      \<lparr>role = ''user'', content = ''Observation: Could not parse action. Please use the format ''
         @ [CHR 0x27] @ ''Action: tool_name: arguments'' @ [CHR 0x27]\<rparr>]
   \<and> messages (self (snd (iteration_body keys_dumps None
      (start_state (weather_agent stalling) 0 ''Hi'' False))))
   = [\<lparr>role = ''system'', content = ''You run in a loop of Thought, Action, PAUSE, Observation.''\<rparr>,
      \<lparr>role = ''user'', content = ''Question: Hi''\<rparr>,
      \<lparr>role = ''assistant'', content = ''Thought: let me think.''\<rparr>,
      \<lparr>role = ''user'', content = ''Observation: Expected '' @ [CHR 0x27]
         @ ''Action: tool_name: arguments'' @ [CHR 0x27] @ '' followed by '' @ [CHR 0x27]
         @ ''PAUSE'' @ [CHR 0x27] @ ''. Please follow the format.''\<rparr>]"
proof -
  let ?s = "start_state (weather_agent (scripted [Inr ''PAUSE''])) 0 ''Hi'' False"
  let ?t = "start_state (weather_agent stalling) 0 ''Hi'' False"
  have "iteration ?s < 10" "groq_client (self ?s) (messages (self ?s)) (world ?s) = (Inr ''PAUSE'', 1)"
    "\<not> str_in ''Answer:'' ''PAUSE''" "str_in ''PAUSE'' ''PAUSE'' \<longrightarrow> parse_action ''PAUSE'' = None"
    by (simp_all add: start_state_frame weather_agent_def scripted_def match_action_def ascii_lower_def)
  from malformed_reply_corrected[OF this, of keys_dumps None]
  have 1: "messages (self (snd (iteration_body keys_dumps None ?s)))
     = messages (self ?s) @ [\<lparr>role = ''assistant'', content = ''PAUSE''\<rparr>,
      \<lparr>role = ''user'', content = ''Observation: Could not parse action. Please use the format ''
         @ [CHR 0x27] @ ''Action: tool_name: arguments'' @ [CHR 0x27]\<rparr>]"
    by auto
  have "iteration ?t < 10"
    "groq_client (self ?t) (messages (self ?t)) (world ?t) = (Inr ''Thought: let me think.'', 1)"
    "\<not> str_in ''Answer:'' ''Thought: let me think.''"
    "str_in ''PAUSE'' ''Thought: let me think.'' \<longrightarrow> parse_action ''Thought: let me think.'' = None"
    by (simp_all add: start_state_frame weather_agent_def stalling_def)
  from malformed_reply_corrected[OF this, of keys_dumps None]
  have 2: "messages (self (snd (iteration_body keys_dumps None ?t)))
     = messages (self ?t) @ [\<lparr>role = ''assistant'', content = ''Thought: let me think.''\<rparr>,
      \<lparr>role = ''user'', content = ''Observation: Expected '' @ [CHR 0x27]
         @ ''Action: tool_name: arguments'' @ [CHR 0x27] @ '' followed by '' @ [CHR 0x27]
         @ ''PAUSE'' @ [CHR 0x27] @ ''. Please follow the format.''\<rparr>]"
    by auto
  from 1 2 show ?thesis
    by (simp add: start_state_frame weather_agent_def seeded_def)
qed

section \<open>Failures\<close>



section \<open>The conversation across runs\<close>

text \<open>
  C7, as the claim states it, fails: a run that stops at the ceiling leaves an
  observation, a user turn, at the end of the conversation, and the next run without
  reset appends its question, another user turn, right after it.
\<close>

theorem strict_alternation_counterexample:
  "map role (messages (fst stalled_twice))
     = [''system'', ''user'', ''assistant'', ''user'', ''user'', ''assistant'', ''user'']
   \<and> \<not> strictly_alternating (system_prompt (weather_agent stalling :: (nat, int) agent))
         (messages (fst stalled_twice))"
  by (simp add: stalled_twice_messages strictly_alternating_def)

text \<open>
  C7, amended. Over \<open>reset\<close> and any sequence of \<open>run_loop\<close> calls on an agent whose
  conversation is empty or has the shape, the first turn is the system instruction, every
  later turn is a user or an assistant turn, and every assistant turn directly follows a
  user turn. The turns strictly alternate after a run that was reset, that started on an
  empty conversation, or that started on a strictly alternating conversation not ending
  with a user turn.
\<close>

theorem conversation_shape_invariant:
  assumes "messages a = [] \<or> conversation_ok (system_prompt a) (messages a)"
    and "calls \<noteq> []"
  shows "conversation_ok (system_prompt a) (messages (fst (invoke_all dumps calls (a, w))))
     \<and> (reset_conversation \<or> messages b = []
          \<or> (strictly_alternating (system_prompt b) (messages b) \<and> role (last (messages b)) \<noteq> ''user'')
        \<longrightarrow> strictly_alternating (system_prompt b)
              (messages (self (snd (run_loop dumps b v query callback max_iterations_arg
                 reset_conversation)))))"
proof -
  from assms(2) obtain c cs where calls: "calls = c # cs"
    by (cases calls) auto
  obtain a' w' where i: "invoke dumps c (a, w) = (a', w')"
    by (cases "invoke dumps c (a, w)")
  from invoke_ok[OF assms(1) i] have ok: "conversation_ok (system_prompt a') (messages a')"
    and sp: "system_prompt a' = system_prompt a"
    by simp_all
  from invoke_all_ok[OF ok, of dumps cs w'] sp
  have 1: "conversation_ok (system_prompt a) (messages (fst (invoke_all dumps calls (a, w))))"
    by (simp add: calls invoke_all_def i)
  show ?thesis
  proof (intro conjI impI)
    show "conversation_ok (system_prompt a) (messages (fst (invoke_all dumps calls (a, w))))"
      by (rule 1)
  next
    assume "reset_conversation \<or> messages b = []
          \<or> (strictly_alternating (system_prompt b) (messages b) \<and> role (last (messages b)) \<noteq> ''user'')"
    then show "strictly_alternating (system_prompt b)
              (messages (self (snd (run_loop dumps b v query callback max_iterations_arg
                 reset_conversation))))"
      by (rule run_loop_strictly_alternating)
  qed
qed

theorem conversation_shape_invariant_witness:
  "conversation_ok ''You run in a loop of Thought, Action, PAUSE, Observation.''
     (messages (fst stalled_twice))
   \<and> strictly_alternating ''You run in a loop of Thought, Action, PAUSE, Observation.''
       (messages (self (snd (run_loop keys_dumps (weather_agent stalling) 0 ''Hi'' None (Some 1) True))))"
proof -
  let ?a = "weather_agent stalling :: (nat, int) agent"
  let ?calls = "[RunLoop ''Hi'' None (Some 1) False, RunLoop ''More'' None (Some 1) False]
      :: nat call list"
  have e: "messages ?a = [] \<or> conversation_ok (system_prompt ?a) (messages ?a)"
    by (simp add: weather_agent_def)
  have n: "?calls \<noteq> []"
    by simp
  have sp: "system_prompt ?a = ''You run in a loop of Thought, Action, PAUSE, Observation.''"
    by (simp add: weather_agent_def)
  note th = conversation_shape_invariant[OF e n, of keys_dumps 0 True ?a 0 "''Hi''" None "Some 1"]
  from th have "conversation_ok (system_prompt ?a) (messages (fst (invoke_all keys_dumps ?calls (?a, 0))))"
    by (rule conjunct1)
  then have 1: "conversation_ok ''You run in a loop of Thought, Action, PAUSE, Observation.''
     (messages (fst stalled_twice))"
    unfolding sp stalled_twice_def .
  from th have "strictly_alternating (system_prompt ?a)
       (messages (self (snd (run_loop keys_dumps ?a 0 ''Hi'' None (Some 1) True))))"
    by blast
  then have 2: "strictly_alternating ''You run in a loop of Thought, Action, PAUSE, Observation.''
       (messages (self (snd (run_loop keys_dumps ?a 0 ''Hi'' None (Some 1) True))))"
    unfolding sp .
  from 1 2 show ?thesis by (rule conjI)
qed

text \<open>
  C8. A run starts from the system turn alone when a reset is requested or the
  conversation is empty, and from the conversation as it stands otherwise; it appends the
  question and then its own turns. So a second run without reset leaves the conversation
  of the first run in place and appends its question and its turns after it.
\<close>

theorem conversation_persists_without_reset:
  assumes "run_loop dumps a w query1 callback1 max_iterations_arg1 reset_conversation1 = (out1, s1)"
    and "run_loop dumps (self s1) w2 query2 callback2 max_iterations_arg2 False = (out2, s2)"
  shows "(\<exists>new1. messages (self s1)
            = (if reset_conversation1 \<or> messages a = []
               then [\<lparr>role = ''system'', content = system_prompt a\<rparr>] else messages a)
              @ \<lparr>role = ''user'', content = ''Question: '' @ query1\<rparr> # new1)
     \<and> (\<exists>new2. messages (self s2)
            = messages (self s1) @ \<lparr>role = ''user'', content = ''Question: '' @ query2\<rparr> # new2)"
proof -
  from run_loop_messages[OF assms(1)] obtain new1 where
    1: "self s1 = a\<lparr>messages := seeded a reset_conversation1
      @ \<lparr>role = ''user'', content = ''Question: '' @ query1\<rparr> # new1\<rparr>"
    by blast
  from run_loop_messages[OF assms(2)] obtain new2 where
    2: "self s2 = (self s1)\<lparr>messages := seeded (self s1) False
      @ \<lparr>role = ''user'', content = ''Question: '' @ query2\<rparr> # new2\<rparr>"
    by blast
  from 1 have ne: "messages (self s1) \<noteq> []" by simp
  have "messages (self s1) = (if reset_conversation1 \<or> messages a = []
               then [\<lparr>role = ''system'', content = system_prompt a\<rparr>] else messages a)
              @ \<lparr>role = ''user'', content = ''Question: '' @ query1\<rparr> # new1"
    by (simp add: 1 seeded_def)
  moreover have "messages (self s2)
      = messages (self s1) @ \<lparr>role = ''user'', content = ''Question: '' @ query2\<rparr> # new2"
    using ne by (simp add: 2 seeded_def)
  ultimately show ?thesis by blast
qed

theorem conversation_persists_without_reset_witness:
  "messages (self (snd first_run))
     = [\<lparr>role = ''system'', content = ''You run in a loop of Thought, Action, PAUSE, Observation.''\<rparr>,
        \<lparr>role = ''user'', content = ''Question: Hi''\<rparr>,
        \<lparr>role = ''assistant'', content = ''Answer: hello''\<rparr>]
   \<and> (\<exists>new2. messages (self (snd second_run))
         = [\<lparr>role = ''system'', content = ''You run in a loop of Thought, Action, PAUSE, Observation.''\<rparr>,
            \<lparr>role = ''user'', content = ''Question: Hi''\<rparr>,
            \<lparr>role = ''assistant'', content = ''Answer: hello''\<rparr>,
            \<lparr>role = ''user'', content = ''Question: More''\<rparr>] @ new2)"
proof -
  have 1: "run_loop keys_dumps (weather_agent (scripted [Inr ''Answer: hello'', Inr ''Answer: again'']))
       0 ''Hi'' None None False = (fst first_run, snd first_run)"
    by (simp add: first_run_def)
  have 2: "run_loop keys_dumps (self (snd first_run)) (world (snd first_run)) ''More'' None None False
      = (fst second_run, snd second_run)"
    by (simp add: second_run_def)
  from conversation_persists_without_reset[OF 1 2] show ?thesis
    by (simp add: first_run_messages)
qed

end
